theory Spec2Isabelle
  imports Main
begin

section \<open>The offline cache worker (src/sw.js)\<close>

subsection \<open>Requests, responses and promises\<close>

text \<open>
  A request as the fetch handler reads it: \<open>event.request.method\<close>, \<open>event.request.url\<close>
  and \<open>event.request.mode\<close>. A response as the handler and the cache read it: \<open>status\<close>,
  \<open>type\<close>, status text, body, and the field values of its \<open>Vary\<close> header (none when the
  header is absent). Cloning a response copies these data.
\<close>

record request =
  req_method :: string
  req_url :: string
  req_mode :: string

record response =
  resp_status :: nat
  resp_type :: string
  resp_statusText :: string
  resp_body :: string
  resp_vary :: "string list"

text \<open>
  A settled promise is fulfilled with a value or rejected with a reason. \<open>p.then(f)\<close> runs
  \<open>f\<close> on a fulfilled promise and passes a rejection on; \<open>p.catch(h)\<close> runs \<open>h\<close> on a
  rejection and is fulfilled with what \<open>h\<close> returns.
\<close>

datatype 'a promise = Fulfilled 'a | Rejected string

text \<open>
  The network is the environment: \<open>fetch(url)\<close> rejects, or resolves with a response. The
  handler also tests the resolved value for being falsy, so the model lets it be absent.
\<close>

datatype fetch_result = NetworkError | NetworkResponse "response option"

subsection \<open>The browser's cache storage\<close>

text \<open>
  \<open>caches\<close> is an ordered collection of named caches (\<open>caches.keys()\<close> lists the names in
  creation order); a cache is an ordered collection of entries keyed by request URL.
  \<open>caches.open\<close> creates the cache when there is none of that name, \<open>caches.delete\<close>
  removes it, a stored response replaces the entry of the same URL, \<open>cache.match\<close> looks a
  URL up in one cache and \<open>caches.match\<close> in every cache, in order, giving the first hit or
  \<open>undefined\<close> (here \<open>None\<close>). What \<open>cache.put\<close> and \<open>cache.addAll\<close> refuse to store is
  written out where the handlers call them.
\<close>

type_synonym cache = "(string \<times> response) list"
type_synonym cache_storage = "(string \<times> cache) list"

definition caches_keys :: "cache_storage \<Rightarrow> string list" where
  "caches_keys cs = map fst cs"

definition caches_open :: "string \<Rightarrow> cache_storage \<Rightarrow> cache_storage" where
  "caches_open name cs = (if name \<in> set (caches_keys cs) then cs else cs @ [(name, [])])"

definition caches_delete :: "string \<Rightarrow> cache_storage \<Rightarrow> cache_storage" where
  "caches_delete name cs = filter (\<lambda>e. fst e \<noteq> name) cs"

definition cache_match :: "string \<Rightarrow> cache \<Rightarrow> response option" where
  "cache_match u c = map_of c u"

definition cache_put :: "string \<Rightarrow> response \<Rightarrow> cache \<Rightarrow> cache" where
  "cache_put u r c = filter (\<lambda>e. fst e \<noteq> u) c @ [(u, r)]"

fun caches_match :: "string \<Rightarrow> cache_storage \<Rightarrow> response option" where
  "caches_match u [] = None"
| "caches_match u (e # cs) =
     (case cache_match u (snd e) of Some r \<Rightarrow> Some r | None \<Rightarrow> caches_match u cs)"

text \<open>Opening the cache \<open>name\<close> and storing the response \<open>r\<close> there under the URL \<open>u\<close>.\<close>

definition caches_put :: "string \<Rightarrow> string \<Rightarrow> response \<Rightarrow> cache_storage \<Rightarrow> cache_storage" where
  "caches_put name u r cs =
     map (\<lambda>e. if fst e = name then (fst e, cache_put u r (snd e)) else e) (caches_open name cs)"

subsection \<open>The worker's state\<close>

text \<open>
  What the handlers read and change: the cache storage, the worker's skip-waiting flag
  (set by \<open>self.skipWaiting()\<close>), whether \<open>clients.claim()\<close> has run, the URLs fetched
  from the network so far, the console, and the puts into a cache that a handler has
  started without waiting for them (cache name, request URL, response), oldest first.
\<close>

record sw_state =
  caches :: cache_storage
  skip_waiting_flag :: bool
  clients_claimed :: bool
  network_calls :: "string list"
  console :: "string list"
  pending_puts :: "(string \<times> string \<times> response) list"

definition console_log :: "string \<Rightarrow> sw_state \<Rightarrow> sw_state" where
  "console_log msg st = st\<lparr>console := console st @ [msg]\<rparr>"

definition skipWaiting :: "sw_state \<Rightarrow> sw_state" where
  "skipWaiting st = st\<lparr>skip_waiting_flag := True\<rparr>"

definition clients_claim :: "sw_state \<Rightarrow> sw_state" where
  "clients_claim st = st\<lparr>clients_claimed := True\<rparr>"

subsection \<open>Configuration\<close>

definition CACHE_NAME :: string where
  "CACHE_NAME = ''delayed-mirror-v1.0.0''"

definition FILES_TO_CACHE :: "string list" where
  "FILES_TO_CACHE =
     [''/'', ''/index.html'', ''/manifest.json'',
      ''/icons/icon-72.png'', ''/icons/icon-96.png'', ''/icons/icon-128.png'',
      ''/icons/icon-144.png'', ''/icons/icon-152.png'', ''/icons/icon-192.png'',
      ''/icons/icon-384.png'', ''/icons/icon-512.png'']"

text \<open>\<open>s.startsWith(p)\<close> of JavaScript.\<close>

definition startsWith :: "string \<Rightarrow> string \<Rightarrow> bool" where
  "startsWith s p = (take (length p) s = p)"

subsection \<open>The activate handler\<close>

text \<open>
  The filter callback of the activate handler, and the names it selects from
  \<open>caches.keys()\<close>: \<open>caches.delete\<close> is called on each of them, in order, with a log line
  before each call; \<open>clients.claim()\<close> follows. \<open>caches.delete\<close> never rejects, so the
  promise given to \<open>waitUntil\<close> is fulfilled.
\<close>

definition old_cache :: "string \<Rightarrow> bool" where
  "old_cache cacheName = (startsWith cacheName ''delayed-mirror-'' \<and> cacheName \<noteq> CACHE_NAME)"

definition activate_deletions :: "sw_state \<Rightarrow> string list" where
  "activate_deletions st = filter old_cache (caches_keys (caches st))"

definition delete_old_cache :: "string \<Rightarrow> sw_state \<Rightarrow> sw_state" where
  "delete_old_cache cacheName st =
     (let st1 = console_log (''[ServiceWorker] Deleting old cache: '' @ cacheName) st
      in st1\<lparr>caches := caches_delete cacheName (caches st1)\<rparr>)"

definition activate_handler :: "sw_state \<Rightarrow> unit promise \<times> sw_state" where
  "activate_handler st =
     (let st1 = console_log ''[ServiceWorker] Activating...'' st;
          st2 = fold delete_old_cache (activate_deletions st1) st1
      in (Fulfilled (), clients_claim st2))"

subsection \<open>The install handler\<close>

text \<open>
  \<open>cache.addAll(urls)\<close> fetches every URL and stores the responses only when every fetch
  resolved with a response it accepts (an ok status, 200 to 299, other than 206, and no
  \<open>*\<close> in \<open>Vary\<close>); otherwise it rejects and stores nothing. The relative paths of \<open>FILES_TO_CACHE\<close> are resolved
  against the worker's origin \<open>base\<close>.
\<close>

definition addable :: "response \<Rightarrow> bool" where
  "addable r =
     (200 \<le> resp_status r \<and> resp_status r \<le> 299 \<and> resp_status r \<noteq> 206
      \<and> ''*'' \<notin> set (resp_vary r))"

fun addAll_responses :: "fetch_result list \<Rightarrow> response list option" where
  "addAll_responses [] = Some []"
| "addAll_responses (NetworkError # fs) = None"
| "addAll_responses (NetworkResponse None # fs) = None"
| "addAll_responses (NetworkResponse (Some r) # fs) =
     (if addable r then map_option ((#) r) (addAll_responses fs) else None)"

text \<open>
  The promise chain of the install handler up to, and without, its final \<open>.catch\<close>:
  \<open>caches.open(CACHE_NAME).then(cache => cache.addAll(FILES_TO_CACHE)).then(() => self.skipWaiting())\<close>.
\<close>

definition install_chain ::
  "string \<Rightarrow> (string \<Rightarrow> fetch_result) \<Rightarrow> sw_state \<Rightarrow> unit promise \<times> sw_state" where
  "install_chain base net st =
     (let st1 = st\<lparr>caches := caches_open CACHE_NAME (caches st)\<rparr>;
          st2 = console_log ''[ServiceWorker] Caching app shell'' st1;
          urls = map ((@) base) FILES_TO_CACHE;
          st3 = st2\<lparr>network_calls := network_calls st2 @ urls\<rparr>
      in case addAll_responses (map net urls) of
           None \<Rightarrow> (Rejected ''TypeError'', st3)
         | Some rs \<Rightarrow>
             (Fulfilled (),
              skipWaiting
                (st3\<lparr>caches :=
                    fold (\<lambda>(u, r). caches_put CACHE_NAME u r) (zip urls rs) (caches st3)\<rparr>)))"

text \<open>
  The whole handler: the promise given to \<open>event.waitUntil\<close> is the chain followed by
  \<open>.catch((error) => { console.error(...) })\<close>, whose callback returns nothing.
\<close>

definition install_handler ::
  "string \<Rightarrow> (string \<Rightarrow> fetch_result) \<Rightarrow> sw_state \<Rightarrow> unit promise \<times> sw_state" where
  "install_handler base net st =
     (let st0 = console_log ''[ServiceWorker] Installing...'' st
      in case install_chain base net st0 of
           (Fulfilled v, st') \<Rightarrow> (Fulfilled v, st')
         | (Rejected error, st') \<Rightarrow>
             (Fulfilled (), console_log (''[ServiceWorker] Install failed: '' @ error) st'))"

subsection \<open>The fetch handler\<close>

text \<open>
  \<open>new URL(u).protocol\<close>: the scheme of the URL with its colon. The constructor throws on
  a string with no scheme; \<open>event.request.url\<close> is a serialised absolute URL, whose
  scheme is in lower case.
\<close>

definition url_protocol :: "string \<Rightarrow> string option" where
  "url_protocol u =
     (if CHR '':'' \<in> set u then Some (takeWhile (\<lambda>c. c \<noteq> CHR '':'') u @ '':'') else None)"

text \<open>
  What the handler does with the event: it returns without calling \<open>respondWith\<close> (the
  browser handles the request), it throws before calling it, or it calls \<open>respondWith\<close>
  with a promise, here given by the value the promise is fulfilled with (\<open>None\<close> for
  \<open>undefined\<close>).
\<close>

datatype fetch_outcome = NotHandled | Threw | RespondWith "response option"

text \<open>\<open>new Response('Offline', {status: 503, statusText: 'Service Unavailable'})\<close>.\<close>

definition offline_response :: response where
  "offline_response =
     \<lparr>resp_status = 503, resp_type = ''default'',
      resp_statusText = ''Service Unavailable'', resp_body = ''Offline'', resp_vary = []\<rparr>"

text \<open>
  The callback on the network's response, \<open>fetch(event.request).then(...)\<close>. Its put,
  \<open>caches.open(CACHE_NAME).then((cache) => { cache.put(event.request, responseToCache); })\<close>,
  is started and neither returned, awaited nor caught: the callback returns the response
  at once, and the put is left pending.
\<close>

definition on_network_response ::
  "request \<Rightarrow> response option \<Rightarrow> sw_state \<Rightarrow> response option \<times> sw_state" where
  "on_network_response rq networkResponse st =
     (case networkResponse of
        None \<Rightarrow> (None, st)
      | Some r \<Rightarrow>
          if resp_status r \<noteq> 200 \<or> resp_type r \<noteq> ''basic'' then (Some r, st)
          else (Some r,
                st\<lparr>pending_puts := pending_puts st @ [(CACHE_NAME, req_url rq, r)]\<rparr>))"

text \<open>
  A pending put runs later. \<open>caches.open\<close> creates the cache when there is none;
  \<open>cache.put\<close> then stores the response, unless it rejects: it does so when the scheme of
  the request's URL is not http or https, when the response's status is 206, and when its
  \<open>Vary\<close> header holds \<open>*\<close>. Nothing handles the rejection, and nothing is stored.
\<close>

definition put_accepted :: "string \<Rightarrow> response \<Rightarrow> bool" where
  "put_accepted u r =
     ((url_protocol u = Some ''http:'' \<or> url_protocol u = Some ''https:'')
      \<and> resp_status r \<noteq> 206 \<and> ''*'' \<notin> set (resp_vary r))"

definition run_put :: "string \<times> string \<times> response \<Rightarrow> cache_storage \<Rightarrow> cache_storage" where
  "run_put p cs =
     (case p of (name, u, r) \<Rightarrow>
        if put_accepted u r then caches_put name u r cs else caches_open name cs)"

text \<open>The state once every pending put has run, in the order they were started.\<close>

definition settle_puts :: "sw_state \<Rightarrow> sw_state" where
  "settle_puts st =
     st\<lparr>caches := fold run_put (pending_puts st) (caches st), pending_puts := []\<rparr>"

text \<open>The callback on a network failure: \<open>.catch((error) => ...)\<close>.\<close>

definition on_network_failure ::
  "string \<Rightarrow> request \<Rightarrow> sw_state \<Rightarrow> response option \<times> sw_state" where
  "on_network_failure base rq st =
     (let st1 = console_log ''[ServiceWorker] Fetch failed'' st
      in if req_mode rq = ''navigate''
         then (caches_match (base @ ''/index.html'') (caches st1), st1)
         else (Some offline_response, st1))"

definition fetch_handler ::
  "string \<Rightarrow> (string \<Rightarrow> fetch_result) \<Rightarrow> request \<Rightarrow> sw_state \<Rightarrow> fetch_outcome \<times> sw_state" where
  "fetch_handler base net rq st =
     (if req_method rq \<noteq> ''GET'' then (NotHandled, st)
      else case url_protocol (req_url rq) of
        None \<Rightarrow> (Threw, st)
      | Some protocol \<Rightarrow>
          (if \<not> startsWith protocol ''http'' then (NotHandled, st)
           else (case caches_match (req_url rq) (caches st) of
             Some cachedResponse \<Rightarrow>
               (RespondWith (Some cachedResponse),
                console_log (''[ServiceWorker] Serving from cache: '' @ req_url rq) st)
           | None \<Rightarrow>
               (let st1 = console_log (''[ServiceWorker] Fetching: '' @ req_url rq) st;
                    st2 = st1\<lparr>network_calls := network_calls st1 @ [req_url rq]\<rparr>
                in (case net (req_url rq) of
                      NetworkResponse networkResponse \<Rightarrow>
                        (case on_network_response rq networkResponse st2 of
                           (r, st3) \<Rightarrow> (RespondWith r, st3))
                    | NetworkError \<Rightarrow>
                        (case on_network_failure base rq st2 of
                           (r, st3) \<Rightarrow> (RespondWith r, st3)))))))"

subsection \<open>The message handler\<close>

text \<open>
  \<open>event.data\<close> is any value a page can post; the handler compares it with two string
  literals by strict equality, which only a string can satisfy.
\<close>

datatype message = StringData string | OtherData

definition message_handler :: "message \<Rightarrow> sw_state \<Rightarrow> sw_state" where
  "message_handler data st =
     (let st1 = console_log ''[ServiceWorker] Message received'' st;
          st2 = (if data = StringData ''skipWaiting'' then skipWaiting st1 else st1)
      in if data = StringData ''clearCache''
         then console_log ''[ServiceWorker] Cache cleared''
                (st2\<lparr>caches := caches_delete CACHE_NAME (caches st2)\<rparr>)
         else st2)"

section \<open>The frame ring buffer\<close>

text \<open>
  Modelled from the spec: the frame ring buffer of the application's main document
  (index.html), which is not among the source files. The buffer is a fixed array of
  \<open>rate \<times> delay_seconds\<close> slots with a write cursor and a fill count; \<open>push\<close> stores the
  newest frame at the write cursor, overwriting the oldest once the buffer is full, and
  advances the cursor; \<open>readDelayed\<close> gives the slot \<open>delayFrames\<close> positions behind the
  write cursor, or nothing while fewer than \<open>delayFrames\<close> frames have been captured. A
  buffer with no slot stores nothing.
\<close>

record 'a ring_buffer =
  slots :: "'a option list"
  capacity :: nat
  delayFrames :: nat
  writePos :: nat
  filled :: nat

definition new_buffer :: "nat \<Rightarrow> nat \<Rightarrow> 'a ring_buffer" where
  "new_buffer rate delay_seconds =
     \<lparr>slots = replicate (rate * delay_seconds) None, capacity = rate * delay_seconds,
      delayFrames = rate * delay_seconds, writePos = 0, filled = 0\<rparr>"

definition push :: "'a \<Rightarrow> 'a ring_buffer \<Rightarrow> 'a ring_buffer" where
  "push frame b =
     (if capacity b = 0 then b
      else b\<lparr>slots := (slots b)[writePos b := Some frame],
             writePos := (writePos b + 1) mod capacity b,
             filled := min (filled b + 1) (capacity b)\<rparr>)"

definition readDelayed :: "'a ring_buffer \<Rightarrow> 'a option" where
  "readDelayed b =
     (if capacity b = 0 \<or> filled b < delayFrames b then None
      else slots b ! ((writePos b + capacity b - delayFrames b) mod capacity b))"

text \<open>The buffer after pushing the frames \<open>fs\<close>, oldest first, into a new buffer.\<close>

definition pushed :: "nat \<Rightarrow> nat \<Rightarrow> 'a list \<Rightarrow> 'a ring_buffer" where
  "pushed rate delay_seconds fs = fold push fs (new_buffer rate delay_seconds)"

section \<open>Concrete inputs\<close>

definition empty_state :: sw_state where
  "empty_state =
     \<lparr>caches = [], skip_waiting_flag = False, clients_claimed = False,
      network_calls = [], console = [], pending_puts = []\<rparr>"

definition page :: response where
  "page = \<lparr>resp_status = 200, resp_type = ''basic'', resp_statusText = ''OK'',
           resp_body = ''<html>'', resp_vary = []\<rparr>"

text \<open>The same response sent with the header \<open>Vary: *\<close>.\<close>

definition vary_star_page :: response where
  "vary_star_page = page\<lparr>resp_vary := [''*'']\<rparr>"

definition vary_star_network :: "string \<Rightarrow> fetch_result" where
  "vary_star_network u = NetworkResponse (Some vary_star_page)"

text \<open>A storage with a cache of an older version, the current one and another app's.\<close>

definition three_caches :: sw_state where
  "three_caches =
     empty_state\<lparr>caches :=
       [(''delayed-mirror-v0.9.0'', [(''https://mirror.example/'', page)]),
        (''delayed-mirror-v1.0.0'', [(''https://mirror.example/index.html'', page)]),
        (''other-app-v1'', [])]\<rparr>"

text \<open>A storage whose current cache holds the root URL and not \<open>/index.html\<close>.\<close>

definition root_only :: sw_state where
  "root_only =
     empty_state\<lparr>caches := [(''delayed-mirror-v1.0.0'', [(''https://mirror.example/'', page)])]\<rparr>"

definition offline_network :: "string \<Rightarrow> fetch_result" where
  "offline_network u = NetworkError"

definition online_network :: "string \<Rightarrow> fetch_result" where
  "online_network u = NetworkResponse (Some page)"

text \<open>A network on which every asset but one icon can be fetched.\<close>

definition one_icon_missing :: "string \<Rightarrow> fetch_result" where
  "one_icon_missing u =
     (if u = ''https://mirror.example/icons/icon-72.png'' then NetworkError
      else NetworkResponse (Some page))"

definition index_request :: request where
  "index_request =
     \<lparr>req_method = ''GET'', req_url = ''https://mirror.example/index.html'',
      req_mode = ''navigate''\<rparr>"

definition script_request :: request where
  "script_request =
     \<lparr>req_method = ''GET'', req_url = ''https://mirror.example/app.js'',
      req_mode = ''no-cors''\<rparr>"

definition other_page_request :: request where
  "other_page_request =
     \<lparr>req_method = ''GET'', req_url = ''https://mirror.example/about'',
      req_mode = ''navigate''\<rparr>"

definition post_request :: request where
  "post_request =
     \<lparr>req_method = ''POST'', req_url = ''https://mirror.example/upload'',
      req_mode = ''cors''\<rparr>"

definition extension_request :: request where
  "extension_request =
     \<lparr>req_method = ''GET'', req_url = ''chrome-extension://abcdef/content.js'',
      req_mode = ''no-cors''\<rparr>"

definition data_request :: request where
  "data_request =
     \<lparr>req_method = ''GET'', req_url = ''data:text/plain,mirror'',
      req_mode = ''no-cors''\<rparr>"

definition not_found :: response where
  "not_found = \<lparr>resp_status = 404, resp_type = ''basic'', resp_statusText = ''Not Found'',
                resp_body = '''', resp_vary = []\<rparr>"

definition not_found_network :: "string \<Rightarrow> fetch_result" where
  "not_found_network u = NetworkResponse (Some not_found)"

section \<open>Lemmas on the cache storage\<close>

lemma caches_console_log: "caches (console_log m st) = caches st"
  by (simp add: console_log_def)

lemma caches_fold_delete:
  "caches (fold delete_old_cache ns st) = filter (\<lambda>e. fst e \<notin> set ns) (caches st)"
proof (induction ns arbitrary: st)
  case Nil
  show ?case by simp
next
  case (Cons n ns)
  have "caches (delete_old_cache n st) = filter (\<lambda>e. fst e \<noteq> n) (caches st)"
    by (simp add: delete_old_cache_def caches_delete_def caches_console_log Let_def)
  with Cons.IH [of "delete_old_cache n st"] show ?case
    by (simp add: conj_commute)
qed

lemma activate_caches:
  "caches (snd (activate_handler st)) = filter (\<lambda>e. \<not> old_cache (fst e)) (caches st)"
proof -
  have "filter (\<lambda>e. fst e \<notin> set (filter old_cache (map fst cs))) cs
        = filter (\<lambda>e. \<not> old_cache (fst e)) cs" for cs :: cache_storage
    by (rule filter_cong) auto
  then show ?thesis
    by (simp add: activate_handler_def Let_def clients_claim_def caches_fold_delete
        activate_deletions_def caches_keys_def caches_console_log)
qed

lemma map_of_filter_fst:
  "map_of (filter (\<lambda>e. P (fst e)) xs) k = (if P k then map_of xs k else None)"
  by (induction xs) auto

lemma cache_put_match: "cache_match u (cache_put u r c) = Some r"
  by (simp add: cache_match_def cache_put_def map_add_def map_of_filter_fst [where P = "\<lambda>k. k \<noteq> u"])

lemma caches_match_append:
  "caches_match u (cs @ ds) =
     (case caches_match u cs of Some r \<Rightarrow> Some r | None \<Rightarrow> caches_match u ds)"
  by (induction cs) (auto split: option.splits)

lemma caches_match_open: "caches_match u (caches_open name cs) = caches_match u cs"
  by (simp add: caches_open_def caches_match_append cache_match_def split: option.splits)

lemma caches_open_has_name: "name \<in> fst ` set (caches_open name cs)"
  by (simp add: caches_open_def caches_keys_def)

lemma caches_match_put_all:
  assumes "caches_match u cs = None" and "name \<in> fst ` set cs"
  shows "caches_match u
           (map (\<lambda>e. if fst e = name then (fst e, cache_put u r (snd e)) else e) cs) = Some r"
  using assms
proof (induction cs)
  case Nil
  then show ?case by simp
next
  case (Cons e cs)
  from Cons.prems(1) have hd: "cache_match u (snd e) = None" and tl: "caches_match u cs = None"
    by (auto split: option.splits)
  show ?case
  proof (cases "fst e = name")
    case True
    then show ?thesis by (simp add: cache_put_match)
  next
    case False
    with Cons.prems(2) have "name \<in> fst ` set cs" by auto
    with Cons.IH tl hd False show ?thesis by simp
  qed
qed

lemma caches_put_match:
  "caches_match u cs = None \<Longrightarrow> caches_match u (caches_put name u r cs) = Some r"
  unfolding caches_put_def
  by (rule caches_match_put_all) (simp_all add: caches_match_open caches_open_has_name)

lemma map_of_put_all:
  assumes "name \<in> fst ` set cs"
  shows "\<exists>c. map_of (map (\<lambda>e. if fst e = name then (fst e, cache_put u r (snd e)) else e) cs) name
              = Some c \<and> cache_match u c = Some r"
  using assms
proof (induction cs)
  case Nil
  then show ?case by simp
next
  case (Cons e cs)
  show ?case
  proof (cases "fst e = name")
    case True
    then show ?thesis by (simp add: cache_put_match)
  next
    case False
    with Cons.prems have "name \<in> fst ` set cs" by auto
    with Cons.IH False show ?thesis by (cases e) simp
  qed
qed

lemma caches_put_current:
  "\<exists>c. map_of (caches_put name u r cs) name = Some c \<and> cache_match u c = Some r"
  unfolding caches_put_def by (rule map_of_put_all) (rule caches_open_has_name)

section \<open>Properties of the install handler\<close>

text \<open>
  The promise the install handler gives to \<open>waitUntil\<close> is fulfilled on every network and
  in every state: its final \<open>.catch\<close> turns a rejection of the chain into a log line.
\<close>

lemma install_handler_fulfilled: "fst (install_handler base net st) = Fulfilled ()"
  by (simp add: install_handler_def Let_def split: prod.splits promise.splits)

text \<open>
  C1. The install is meant to fail as a whole when the fetch of one asset fails (so the
  comments of the handler say). On a network where one icon cannot be fetched, the chain
  \<open>open\<close>, \<open>addAll\<close>, \<open>skipWaiting\<close> is rejected and stores nothing, but the promise the
  handler gives to \<open>waitUntil\<close> is fulfilled: the install succeeds, and the current cache
  exists and is empty.
\<close>

theorem install_failure_swallowed:
  "fst (install_chain ''https://mirror.example'' one_icon_missing empty_state)
     = Rejected ''TypeError''
   \<and> fst (install_handler ''https://mirror.example'' one_icon_missing empty_state) = Fulfilled ()
   \<and> caches (snd (install_handler ''https://mirror.example'' one_icon_missing empty_state))
       = [(''delayed-mirror-v1.0.0'', [])]"
  by (simp add: install_handler_def install_chain_def one_icon_missing_def empty_state_def
      FILES_TO_CACHE_def console_log_def caches_open_def caches_keys_def CACHE_NAME_def
      addable_def page_def)

section \<open>Properties of the activate handler\<close>

text \<open>
  C2. Whatever caches exist, the activate handler calls \<open>caches.delete\<close> on exactly the
  names that start with \<open>delayed-mirror-\<close> and differ from \<open>CACHE_NAME\<close>; \<open>CACHE_NAME\<close> is
  never among them; the storage afterwards is the storage before without the caches of
  those names, and the cache named \<open>CACHE_NAME\<close> is as it was.
\<close>

theorem activate_deletes_exactly_old_caches:
  "set (activate_deletions st) =
     {n. n \<in> set (caches_keys (caches st)) \<and> startsWith n ''delayed-mirror-'' \<and> n \<noteq> CACHE_NAME}
   \<and> CACHE_NAME \<notin> set (activate_deletions st)
   \<and> caches (snd (activate_handler st)) =
       filter (\<lambda>e. \<not> (startsWith (fst e) ''delayed-mirror-'' \<and> fst e \<noteq> CACHE_NAME)) (caches st)
   \<and> filter (\<lambda>e. fst e = CACHE_NAME) (caches (snd (activate_handler st))) =
       filter (\<lambda>e. fst e = CACHE_NAME) (caches st)"
proof -
  have keep: "caches (snd (activate_handler st)) =
       filter (\<lambda>e. \<not> (startsWith (fst e) ''delayed-mirror-'' \<and> fst e \<noteq> CACHE_NAME)) (caches st)"
    using activate_caches [of st] by (simp add: old_cache_def)
  have cur: "filter (\<lambda>e. fst e = CACHE_NAME) (caches (snd (activate_handler st))) =
       filter (\<lambda>e. fst e = CACHE_NAME) (caches st)"
    unfolding keep filter_filter by (rule filter_cong) auto
  have sel: "set (activate_deletions st) =
     {n. n \<in> set (caches_keys (caches st)) \<and> startsWith n ''delayed-mirror-'' \<and> n \<noteq> CACHE_NAME}"
    by (auto simp: activate_deletions_def old_cache_def)
  have "CACHE_NAME \<notin> set (activate_deletions st)"
    by (simp add: activate_deletions_def old_cache_def)
  with keep cur sel show ?thesis by blast
qed

theorem activate_deletes_exactly_old_caches_witness:
  "caches (snd (activate_handler three_caches)) =
       [(''delayed-mirror-v1.0.0'', [(''https://mirror.example/index.html'', page)]),
        (''other-app-v1'', [])]"
  using activate_deletes_exactly_old_caches
    [of three_caches, THEN conjunct2, THEN conjunct2, THEN conjunct1]
  by (simp add: three_caches_def empty_state_def startsWith_def CACHE_NAME_def)

text \<open>
  C9. A cache whose name does not start with \<open>delayed-mirror-\<close> is not among the names the
  activate handler deletes, and the storage holds it afterwards as it did before.
\<close>

theorem activate_keeps_foreign_caches:
  assumes "\<not> startsWith n ''delayed-mirror-''"
  shows "n \<notin> set (activate_deletions st)
   \<and> filter (\<lambda>e. fst e = n) (caches (snd (activate_handler st))) =
       filter (\<lambda>e. fst e = n) (caches st)"
proof -
  have "\<not> old_cache n" using assms by (simp add: old_cache_def)
  then have "filter (\<lambda>e. fst e = n) (filter (\<lambda>e. \<not> old_cache (fst e)) cs)
             = filter (\<lambda>e. fst e = n) cs" for cs :: cache_storage
    unfolding filter_filter by (intro filter_cong) auto
  moreover have "n \<notin> set (activate_deletions st)"
    using \<open>\<not> old_cache n\<close> by (simp add: activate_deletions_def)
  ultimately show ?thesis by (simp add: activate_caches)
qed

theorem activate_keeps_foreign_caches_witness:
  "\<not> startsWith ''other-app-v1'' ''delayed-mirror-''
   \<and> filter (\<lambda>e. fst e = ''other-app-v1'') (caches (snd (activate_handler three_caches))) =
       [(''other-app-v1'', [])]"
proof -
  have h: "\<not> startsWith ''other-app-v1'' ''delayed-mirror-''"
    by (simp add: startsWith_def)
  show ?thesis
    using h activate_keeps_foreign_caches [OF h, of three_caches]
    by (simp add: three_caches_def empty_state_def)
qed

section \<open>Properties of the frame ring buffer\<close>

lemma pushed_snoc: "pushed R D (fs @ [x]) = push x (pushed R D fs)"
  by (simp add: pushed_def)

lemma mod_differs:
  fixes j n C :: nat
  assumes "j < n" and "n < j + C"
  shows "j mod C \<noteq> n mod C"
proof
  assume "j mod C = n mod C"
  then have "n mod C = j mod C" by simp
  with assms(1) have "C dvd n - j" by (simp add: mod_eq_dvd_iff_nat)
  moreover have "0 < n - j" and "n - j < C" using assms by arith+
  ultimately show False by (simp add: nat_dvd_not_less)
qed

lemma pushed_invariant:
  assumes "0 < R * D"
  shows "capacity (pushed R D fs) = R * D
    \<and> delayFrames (pushed R D fs) = R * D
    \<and> length (slots (pushed R D fs)) = R * D
    \<and> writePos (pushed R D fs) = length fs mod (R * D)
    \<and> filled (pushed R D fs) = min (length fs) (R * D)
    \<and> (\<forall>j < length fs. length fs \<le> j + R * D \<longrightarrow>
          slots (pushed R D fs) ! (j mod (R * D)) = Some (fs ! j))"
proof (induction fs rule: rev_induct)
  case Nil
  show ?case by (simp add: pushed_def new_buffer_def)
next
  case (snoc x fs)
  let ?C = "R * D" and ?b = "pushed R D fs" and ?n = "length fs"
  from snoc.IH have cap: "capacity ?b = ?C" and del: "delayFrames ?b = ?C"
    and len: "length (slots ?b) = ?C" and wp: "writePos ?b = ?n mod ?C"
    and fl: "filled ?b = min ?n ?C"
    and old: "\<And>j. j < ?n \<Longrightarrow> ?n \<le> j + ?C \<Longrightarrow> slots ?b ! (j mod ?C) = Some (fs ! j)"
    by auto
  have in_range: "?n mod ?C < length (slots ?b)"
    using assms len by simp
  have sl: "slots (push x ?b) = (slots ?b)[?n mod ?C := Some x]"
    using assms cap wp by (simp add: push_def)
  have "writePos (push x ?b) = (?n mod ?C + 1) mod ?C"
    using assms cap wp by (simp add: push_def)
  then have wp': "writePos (push x ?b) = length (fs @ [x]) mod ?C"
    by (simp add: mod_Suc_eq)
  have fl': "filled (push x ?b) = min (length (fs @ [x])) ?C"
    using assms cap fl by (simp add: push_def)
  have new: "slots (push x ?b) ! (j mod ?C) = Some ((fs @ [x]) ! j)"
    if "j < length (fs @ [x])" and "length (fs @ [x]) \<le> j + ?C" for j
  proof (cases "j = ?n")
    case True
    with in_range show ?thesis by (simp add: sl)
  next
    case False
    with that have lt: "j < ?n" and near: "?n < j + ?C" by simp_all
    then have "j mod ?C \<noteq> ?n mod ?C" by (rule mod_differs)
    then have "slots (push x ?b) ! (j mod ?C) = slots ?b ! (j mod ?C)"
      by (simp add: sl)
    also have "\<dots> = Some (fs ! j)" using lt near by (simp add: old)
    finally show ?thesis using lt by (simp add: nth_append)
  qed
  have "capacity (push x ?b) = ?C" "delayFrames (push x ?b) = ?C"
    "length (slots (push x ?b)) = ?C"
    using assms cap del len by (simp_all add: push_def)
  with wp' fl' new show ?case by (simp add: pushed_snoc)
qed

text \<open>
  C3. For a frame rate and a delay setting, both positive, the buffer has
  \<open>rate \<times> delay_seconds\<close> slots, and after \<open>capacity + k\<close> pushes \<open>readDelayed\<close> returns the
  frame at position \<open>k\<close> (counted from 0) of the pushed sequence: the frame \<open>capacity\<close>
  samples behind the write position, the oldest one the buffer still holds. At 15 frames
  per second and 10 seconds the capacity is 150, and after 151 pushes the frame returned is
  frame 1.
\<close>

theorem readDelayed_after_capacity_pushes:
  fixes frames :: "'a list"
  assumes "0 < rate" and "0 < delay_seconds"
    and "length frames = rate * delay_seconds + k"
  shows "capacity (new_buffer rate delay_seconds :: 'a ring_buffer) = rate * delay_seconds
    \<and> capacity (pushed rate delay_seconds frames) = rate * delay_seconds
    \<and> readDelayed (pushed rate delay_seconds frames) = Some (frames ! k)"
proof -
  let ?C = "rate * delay_seconds" and ?b = "pushed rate delay_seconds frames"
  have pos: "0 < ?C" using assms(1,2) by simp
  note inv = pushed_invariant [OF pos, of frames]
  from inv have cap: "capacity ?b = ?C" and del: "delayFrames ?b = ?C"
    and wp: "writePos ?b = length frames mod ?C" and fl: "filled ?b = min (length frames) ?C"
    by simp_all
  have "k < length frames" and "length frames \<le> k + ?C"
    using pos assms(3) by simp_all
  with inv have "slots ?b ! (k mod ?C) = Some (frames ! k)" by blast
  moreover have "length frames mod ?C = k mod ?C" using assms(3) by simp
  ultimately have "readDelayed ?b = Some (frames ! k)"
    using pos cap del wp fl assms(3) by (simp add: readDelayed_def)
  with cap show ?thesis by (simp add: new_buffer_def)
qed

theorem readDelayed_after_capacity_pushes_witness:
  "capacity (new_buffer 15 10 :: nat ring_buffer) = 150
   \<and> readDelayed (pushed 15 10 [0 ..< 151]) = Some 1"
  using readDelayed_after_capacity_pushes
    [where rate = 15 and delay_seconds = 10 and frames = "[0 ..< 151]" and k = 1]
  by simp

section \<open>Properties of the fetch handler\<close>

lemma caches_match_named:
  assumes "map_of cs name = Some c" and "cache_match u c = Some r"
  shows "\<exists>r'. caches_match u cs = Some r'"
  using assms
proof (induction cs)
  case Nil
  then show ?case by simp
next
  case (Cons e cs)
  show ?case
  proof (cases "fst e = name")
    case True
    with Cons.prems have "cache_match u (snd e) = Some r" by (cases e) simp
    then show ?thesis by simp
  next
    case False
    with Cons.prems(1) have "map_of cs name = Some c" by (cases e) simp
    with Cons.IH Cons.prems(2) obtain r' where "caches_match u cs = Some r'" by blast
    then show ?thesis by (cases "cache_match u (snd e)") simp_all
  qed
qed

lemma settle_after_put:
  assumes "pending_puts st' = ps @ [(name, u, r)]" and "put_accepted u r"
  shows "caches (settle_puts st') = caches_put name u r (fold run_put ps (caches st'))"
  using assms by (simp add: settle_puts_def run_put_def)

text \<open>
  C4. A GET request over a protocol the handler accepts, whose URL is in the cache
  storage, is answered with the cached response; the network is not called, the storage
  is unchanged and no put is started. (The storage holds http and https URLs only; the
  hypothesis on the protocol says that the request is one of those the handler handles.)
\<close>

theorem fetch_cache_hit:
  assumes "req_method rq = ''GET''"
    and "url_protocol (req_url rq) = Some p" and "startsWith p ''http''"
    and "caches_match (req_url rq) (caches st) = Some r"
  shows "fst (fetch_handler base net rq st) = RespondWith (Some r)
    \<and> network_calls (snd (fetch_handler base net rq st)) = network_calls st
    \<and> caches (snd (fetch_handler base net rq st)) = caches st
    \<and> pending_puts (snd (fetch_handler base net rq st)) = pending_puts st"
  using assms by (simp add: fetch_handler_def console_log_def)

theorem fetch_cache_hit_witness:
  "fst (fetch_handler ''https://mirror.example'' offline_network index_request three_caches)
     = RespondWith (Some page)
   \<and> network_calls
       (snd (fetch_handler ''https://mirror.example'' offline_network index_request three_caches))
     = []"
proof -
  have m: "req_method index_request = ''GET''" by (simp add: index_request_def)
  have u: "url_protocol (req_url index_request) = Some ''https:''"
    by (simp add: index_request_def url_protocol_def)
  have s: "startsWith ''https:'' ''http''" by (simp add: startsWith_def)
  have c: "caches_match (req_url index_request) (caches three_caches) = Some page"
    by (simp add: index_request_def three_caches_def empty_state_def cache_match_def)
  show ?thesis
    using fetch_cache_hit [OF m u s c, of "''https://mirror.example''" offline_network]
    by (simp add: three_caches_def empty_state_def)
qed

text \<open>
  C5 does not hold for every response of status 200 and type \<open>basic\<close>: the handler only
  starts the put, and \<open>cache.put\<close> refuses a response sent with \<open>Vary: *\<close>. Here the
  network answers a script request with such a response; the handler passes it on, the
  put opens the current cache and stores nothing, and the same request again misses the
  cache and goes to the network (offline by then, so the answer is the 503 response).
\<close>

theorem fetch_vary_star_not_stored:
  "resp_status vary_star_page = 200 \<and> resp_type vary_star_page = ''basic''
   \<and> fst (fetch_handler ''https://mirror.example'' vary_star_network script_request empty_state)
       = RespondWith (Some vary_star_page)
   \<and> caches (settle_puts (snd (fetch_handler ''https://mirror.example'' vary_star_network
        script_request empty_state))) = [(''delayed-mirror-v1.0.0'', [])]
   \<and> fst (fetch_handler ''https://mirror.example'' offline_network script_request
        (settle_puts (snd (fetch_handler ''https://mirror.example'' vary_star_network
           script_request empty_state))))
       = RespondWith (Some offline_response)"
  by (simp add: fetch_handler_def script_request_def url_protocol_def startsWith_def
      empty_state_def vary_star_network_def vary_star_page_def page_def offline_network_def
      on_network_response_def on_network_failure_def console_log_def settle_puts_def
      run_put_def put_accepted_def caches_open_def caches_keys_def cache_match_def
      CACHE_NAME_def Let_def)

text \<open>
  C5, amended. A GET request over http or https, absent from the storage, for which the
  network gives a response of status 200 and type \<open>basic\<close> whose \<open>Vary\<close> header does not
  hold \<open>*\<close>: the handler answers with that response, leaves the storage as it is and
  starts a put of the response under the request's URL into the cache named
  \<open>CACHE_NAME\<close>. Once the pending puts have run, that cache holds the response under the
  URL, and the same request again is answered from the cache, on any network and with no
  network call; when no other put was pending, it is answered with that very response.
\<close>

theorem fetch_miss_stores_response:
  assumes "req_method rq = ''GET''"
    and "url_protocol (req_url rq) = Some p" and "p = ''http:'' \<or> p = ''https:''"
    and "caches_match (req_url rq) (caches st) = None"
    and "net (req_url rq) = NetworkResponse (Some r)"
    and "resp_status r = 200" and "resp_type r = ''basic''"
    and "''*'' \<notin> set (resp_vary r)"
  shows "fst (fetch_handler base net rq st) = RespondWith (Some r)
    \<and> caches (snd (fetch_handler base net rq st)) = caches st
    \<and> pending_puts (snd (fetch_handler base net rq st))
        = pending_puts st @ [(CACHE_NAME, req_url rq, r)]
    \<and> (\<exists>c. map_of (caches (settle_puts (snd (fetch_handler base net rq st)))) CACHE_NAME = Some c
            \<and> cache_match (req_url rq) c = Some r)
    \<and> (\<exists>r'. fst (fetch_handler base net' rq (settle_puts (snd (fetch_handler base net rq st))))
              = RespondWith (Some r'))
    \<and> network_calls
          (snd (fetch_handler base net' rq (settle_puts (snd (fetch_handler base net rq st)))))
        = network_calls (snd (fetch_handler base net rq st))
    \<and> (pending_puts st = [] \<longrightarrow>
          caches_match (req_url rq) (caches (settle_puts (snd (fetch_handler base net rq st))))
            = Some r
          \<and> fst (fetch_handler base net' rq (settle_puts (snd (fetch_handler base net rq st))))
            = RespondWith (Some r))"
proof -
  let ?u = "req_url rq"
  let ?st' = "snd (fetch_handler base net rq st)"
  let ?done = "settle_puts ?st'"
  have http: "startsWith p ''http''"
    using assms(3) by (auto simp: startsWith_def)
  have res: "fst (fetch_handler base net rq st) = RespondWith (Some r)"
    using assms(1,2,4-7) http by (simp add: fetch_handler_def on_network_response_def Let_def)
  have cs: "caches ?st' = caches st"
    using assms(1,2,4-7) http
    by (simp add: fetch_handler_def on_network_response_def console_log_def)
  have pd: "pending_puts ?st' = pending_puts st @ [(CACHE_NAME, ?u, r)]"
    using assms(1,2,4-7) http
    by (simp add: fetch_handler_def on_network_response_def console_log_def)
  have acc: "put_accepted ?u r"
    using assms(2,3,6,8) by (auto simp: put_accepted_def)
  have settled: "caches ?done = caches_put CACHE_NAME ?u r (fold run_put (pending_puts st) (caches st))"
    using settle_after_put [OF pd acc] by (simp add: cs)
  have cur: "\<exists>c. map_of (caches ?done) CACHE_NAME = Some c \<and> cache_match ?u c = Some r"
    unfolding settled by (rule caches_put_current)
  then obtain c where "map_of (caches ?done) CACHE_NAME = Some c" and "cache_match ?u c = Some r"
    by blast
  then obtain r' where hit: "caches_match ?u (caches ?done) = Some r'"
    using caches_match_named by blast
  have again: "fetch_handler base net' rq ?done =
      (RespondWith (Some r'), console_log (''[ServiceWorker] Serving from cache: '' @ ?u) ?done)"
    using assms(1,2) http hit by (simp add: fetch_handler_def)
  have calls: "network_calls (snd (fetch_handler base net' rq ?done)) = network_calls ?st'"
    unfolding again by (simp add: console_log_def settle_puts_def)
  have exact: "caches_match ?u (caches ?done) = Some r
      \<and> fst (fetch_handler base net' rq ?done) = RespondWith (Some r)"
    if "pending_puts st = []"
  proof -
    from that settled have "caches ?done = caches_put CACHE_NAME ?u r (caches st)" by simp
    with assms(4) have "caches_match ?u (caches ?done) = Some r"
      by (simp add: caches_put_match)
    with hit again show ?thesis by simp
  qed
  from again have "\<exists>r'. fst (fetch_handler base net' rq ?done) = RespondWith (Some r')"
    by simp
  with res cs pd cur calls exact show ?thesis by blast
qed

theorem fetch_miss_stores_response_witness:
  "caches (settle_puts
      (snd (fetch_handler ''https://mirror.example'' online_network script_request empty_state)))
     = [(''delayed-mirror-v1.0.0'', [(''https://mirror.example/app.js'', page)])]
   \<and> fst (fetch_handler ''https://mirror.example'' offline_network script_request
        (settle_puts
          (snd (fetch_handler ''https://mirror.example'' online_network script_request
             empty_state))))
     = RespondWith (Some page)"
proof -
  have m: "req_method script_request = ''GET''" by (simp add: script_request_def)
  have u: "url_protocol (req_url script_request) = Some ''https:''"
    by (simp add: script_request_def url_protocol_def)
  have s: "''https:'' = ''http:'' \<or> ''https:'' = ''https:''" by simp
  have c: "caches_match (req_url script_request) (caches empty_state) = None"
    by (simp add: empty_state_def)
  have n: "online_network (req_url script_request) = NetworkResponse (Some page)"
    by (simp add: online_network_def)
  have k: "resp_status page = 200" and t: "resp_type page = ''basic''"
    and v: "''*'' \<notin> set (resp_vary page)"
    by (simp_all add: page_def)
  have e: "pending_puts empty_state = []" by (simp add: empty_state_def)
  have "caches (settle_puts
      (snd (fetch_handler ''https://mirror.example'' online_network script_request empty_state)))
     = [(''delayed-mirror-v1.0.0'', [(''https://mirror.example/app.js'', page)])]"
    by (simp add: fetch_handler_def script_request_def url_protocol_def startsWith_def
        empty_state_def online_network_def on_network_response_def page_def console_log_def
        settle_puts_def run_put_def put_accepted_def caches_put_def caches_open_def
        caches_keys_def cache_put_def CACHE_NAME_def Let_def)
  then show ?thesis
    using e fetch_miss_stores_response
      [where net = online_network and net' = offline_network
         and base = "''https://mirror.example''", OF m u s c n k t v]
    by simp
qed

text \<open>
  C6 does not hold for every failed navigation: the handler looks \<open>/index.html\<close> up and
  passes the result on, found or not. With an empty storage, and with a storage that
  holds the root URL \<open>/\<close> but not \<open>/index.html\<close>, a navigation whose fetch fails is
  answered with \<open>undefined\<close>, not with a document.
\<close>

theorem navigation_fallback_missing:
  "fst (fetch_handler ''https://mirror.example'' offline_network other_page_request empty_state)
     = RespondWith None
   \<and> caches_match ''https://mirror.example/'' (caches root_only) = Some page
   \<and> fst (fetch_handler ''https://mirror.example'' offline_network other_page_request root_only)
     = RespondWith None"
  by (simp add: fetch_handler_def other_page_request_def url_protocol_def startsWith_def
      empty_state_def root_only_def offline_network_def on_network_failure_def console_log_def
      cache_match_def Let_def)

text \<open>
  C6, amended. A GET request the handler handles, absent from the storage, whose network
  fetch rejects: a navigation is answered with what the storage holds for \<open>/index.html\<close>
  of the worker's origin, the cached main document when there is one and \<open>undefined\<close>
  when there is none; any other request is answered with the synthetic response of status
  503. The storage is unchanged and no put is started.
\<close>

theorem fetch_network_failure:
  assumes "req_method rq = ''GET''"
    and "url_protocol (req_url rq) = Some p" and "startsWith p ''http''"
    and "caches_match (req_url rq) (caches st) = None"
    and "net (req_url rq) = NetworkError"
  shows "fst (fetch_handler base net rq st) =
      RespondWith (if req_mode rq = ''navigate''
                   then caches_match (base @ ''/index.html'') (caches st)
                   else Some offline_response)
    \<and> resp_status offline_response = 503
    \<and> caches (snd (fetch_handler base net rq st)) = caches st
    \<and> pending_puts (snd (fetch_handler base net rq st)) = pending_puts st"
  using assms
  by (simp add: fetch_handler_def on_network_failure_def console_log_def offline_response_def)

theorem fetch_network_failure_witness:
  "fst (fetch_handler ''https://mirror.example'' offline_network other_page_request three_caches)
     = RespondWith (Some page)
   \<and> fst (fetch_handler ''https://mirror.example'' offline_network script_request three_caches)
     = RespondWith (Some offline_response)"
proof -
  have s: "startsWith ''https:'' ''http''" by (simp add: startsWith_def)
  have m1: "req_method other_page_request = ''GET''" by (simp add: other_page_request_def)
  have u1: "url_protocol (req_url other_page_request) = Some ''https:''"
    by (simp add: other_page_request_def url_protocol_def)
  have c1: "caches_match (req_url other_page_request) (caches three_caches) = None"
    by (simp add: other_page_request_def three_caches_def empty_state_def cache_match_def)
  have n1: "offline_network (req_url other_page_request) = NetworkError"
    by (simp add: offline_network_def)
  have m2: "req_method script_request = ''GET''" by (simp add: script_request_def)
  have u2: "url_protocol (req_url script_request) = Some ''https:''"
    by (simp add: script_request_def url_protocol_def)
  have c2: "caches_match (req_url script_request) (caches three_caches) = None"
    by (simp add: script_request_def three_caches_def empty_state_def cache_match_def)
  have n2: "offline_network (req_url script_request) = NetworkError"
    by (simp add: offline_network_def)
  show ?thesis
    using fetch_network_failure
        [where net = offline_network and base = "''https://mirror.example''", OF m1 u1 s c1 n1]
      fetch_network_failure
        [where net = offline_network and base = "''https://mirror.example''", OF m2 u2 s c2 n2]
    by (simp add: other_page_request_def script_request_def three_caches_def empty_state_def
        cache_match_def)
qed

text \<open>
  C7. A request whose method is not GET is not handled, and neither is a request whose
  URL is not an http or https one: the handler returns without calling \<open>respondWith\<close> and
  without changing anything. The handler tests the protocol with \<open>startsWith('http')\<close>, and
  the hypothesis is that test: the schemes other than http and https that reach a fetch
  event (extension schemes, \<open>data\<close>, \<open>blob\<close>) do not begin with \<open>http\<close>.
\<close>

theorem fetch_bypass:
  assumes "req_method rq \<noteq> ''GET''
           \<or> (url_protocol (req_url rq) = Some p \<and> \<not> startsWith p ''http'')"
  shows "fetch_handler base net rq st = (NotHandled, st)"
  using assms by (auto simp: fetch_handler_def)

theorem fetch_bypass_witness:
  "fetch_handler ''https://mirror.example'' online_network post_request three_caches
     = (NotHandled, three_caches)
   \<and> fetch_handler ''https://mirror.example'' online_network extension_request three_caches
     = (NotHandled, three_caches)
   \<and> fetch_handler ''https://mirror.example'' online_network data_request three_caches
     = (NotHandled, three_caches)"
proof -
  have a: "req_method post_request \<noteq> ''GET''" by (simp add: post_request_def)
  have b: "url_protocol (req_url extension_request) = Some ''chrome-extension:''
           \<and> \<not> startsWith ''chrome-extension:'' ''http''"
    by (simp add: extension_request_def url_protocol_def startsWith_def)
  have c: "url_protocol (req_url data_request) = Some ''data:''
           \<and> \<not> startsWith ''data:'' ''http''"
    by (simp add: data_request_def url_protocol_def startsWith_def)
  show ?thesis
    using fetch_bypass [OF disjI1, OF a] fetch_bypass [OF disjI2, OF b]
      fetch_bypass [OF disjI2, OF c]
    by simp
qed

text \<open>
  C10. A GET request the handler handles, absent from the storage, for which the network
  resolves with no response, or with one whose status is not 200 or whose type is not
  \<open>basic\<close>: the handler answers with exactly what the network gave, leaves the storage as
  it was and starts no put.
\<close>

theorem fetch_miss_not_cacheable:
  assumes "req_method rq = ''GET''"
    and "url_protocol (req_url rq) = Some p" and "startsWith p ''http''"
    and "caches_match (req_url rq) (caches st) = None"
    and "net (req_url rq) = NetworkResponse nr"
    and "case nr of None \<Rightarrow> True
         | Some r \<Rightarrow> resp_status r \<noteq> 200 \<or> resp_type r \<noteq> ''basic''"
  shows "fst (fetch_handler base net rq st) = RespondWith nr
    \<and> caches (snd (fetch_handler base net rq st)) = caches st
    \<and> pending_puts (snd (fetch_handler base net rq st)) = pending_puts st"
  using assms
  by (cases nr) (auto simp: fetch_handler_def on_network_response_def console_log_def)

theorem fetch_miss_not_cacheable_witness:
  "fst (fetch_handler ''https://mirror.example'' not_found_network script_request three_caches)
     = RespondWith (Some not_found)
   \<and> caches (snd (fetch_handler ''https://mirror.example'' not_found_network script_request
        three_caches)) = caches three_caches
   \<and> pending_puts (snd (fetch_handler ''https://mirror.example'' not_found_network
        script_request three_caches)) = []"
proof -
  have m: "req_method script_request = ''GET''" by (simp add: script_request_def)
  have u: "url_protocol (req_url script_request) = Some ''https:''"
    by (simp add: script_request_def url_protocol_def)
  have s: "startsWith ''https:'' ''http''" by (simp add: startsWith_def)
  have c: "caches_match (req_url script_request) (caches three_caches) = None"
    by (simp add: script_request_def three_caches_def empty_state_def cache_match_def)
  have n: "not_found_network (req_url script_request) = NetworkResponse (Some not_found)"
    by (simp add: not_found_network_def)
  have k: "case Some not_found of None \<Rightarrow> True
           | Some r \<Rightarrow> resp_status r \<noteq> 200 \<or> resp_type r \<noteq> ''basic''"
    by (simp add: not_found_def)
  show ?thesis
    using fetch_miss_not_cacheable
      [where net = not_found_network and base = "''https://mirror.example''", OF m u s c n k]
    by (simp add: three_caches_def empty_state_def)
qed

section \<open>Properties of the message handler\<close>

text \<open>
  C8. On the string \<open>skipWaiting\<close> the handler sets the skip-waiting flag and leaves the
  storage alone; on the string \<open>clearCache\<close> it deletes the cache named \<open>CACHE_NAME\<close> and
  leaves the flag alone; on any other message the storage, the flag, the claim of clients,
  the network calls and the pending puts are as before (only a console line is written).
\<close>

theorem message_handler_tokens:
  "skip_waiting_flag (message_handler (StringData ''skipWaiting'') st)
   \<and> caches (message_handler (StringData ''skipWaiting'') st) = caches st
   \<and> caches (message_handler (StringData ''clearCache'') st) = caches_delete CACHE_NAME (caches st)
   \<and> CACHE_NAME \<notin> set (caches_keys (caches (message_handler (StringData ''clearCache'') st)))
   \<and> skip_waiting_flag (message_handler (StringData ''clearCache'') st) = skip_waiting_flag st
   \<and> (data \<noteq> StringData ''skipWaiting'' \<and> data \<noteq> StringData ''clearCache'' \<longrightarrow>
        caches (message_handler data st) = caches st
        \<and> skip_waiting_flag (message_handler data st) = skip_waiting_flag st
        \<and> clients_claimed (message_handler data st) = clients_claimed st
        \<and> network_calls (message_handler data st) = network_calls st
        \<and> pending_puts (message_handler data st) = pending_puts st)"
  by (auto simp: message_handler_def skipWaiting_def console_log_def caches_delete_def
      caches_keys_def)

theorem message_handler_tokens_witness:
  "caches (message_handler (StringData ''clearCache'') three_caches)
     = [(''delayed-mirror-v0.9.0'', [(''https://mirror.example/'', page)]), (''other-app-v1'', [])]
   \<and> caches (message_handler (StringData ''clearcache'') three_caches) = caches three_caches
   \<and> skip_waiting_flag (message_handler OtherData three_caches) = False"
  using message_handler_tokens [of three_caches "StringData ''clearcache''"]
    message_handler_tokens [of three_caches OtherData]
  by (simp add: three_caches_def empty_state_def caches_delete_def CACHE_NAME_def)

end
